theory Spec2Isabelle
  imports Main "HOL-Library.Sublist"
begin

section \<open>Python strings\<close>

text \<open>
  A Python \<open>str\<close> is modelled as a \<open>string\<close> (a list of characters with codes
  0..255, read as the code points U+0000..U+00FF).
\<close>

definition is_space :: "char \<Rightarrow> bool" where
  \<comment> \<open>\<open>str.isspace\<close> on the code points below 256: TAB, LF, VT, FF, CR, FS, GS, RS, US,
      SPACE, NEL (0x85) and NBSP (0xA0).\<close>
  "is_space c = (of_char c \<in> {9, 10, 11, 12, 13, 28, 29, 30, 31, 32, 133, 160 :: nat})"

definition lstrip :: "string \<Rightarrow> string" where
  "lstrip s = dropWhile is_space s"

definition rstrip :: "string \<Rightarrow> string" where
  "rstrip s = rev (dropWhile is_space (rev s))"

definition strip :: "string \<Rightarrow> string" where
  \<comment> \<open>\<open>s.strip()\<close>\<close>
  "strip s = rstrip (lstrip s)"

definition rstrip_chr :: "char \<Rightarrow> string \<Rightarrow> string" where
  \<comment> \<open>\<open>s.rstrip(c)\<close> for a one-character argument\<close>
  "rstrip_chr c s = rev (dropWhile (\<lambda>x. x = c) (rev s))"

fun join :: "string \<Rightarrow> string list \<Rightarrow> string" where
  \<comment> \<open>\<open>sep.join(xs)\<close>\<close>
  "join sep [] = []"
| "join sep [x] = x"
| "join sep (x # y # ys) = x @ sep @ join sep (y # ys)"

fun split_once :: "string \<Rightarrow> string \<Rightarrow> (string \<times> string) option" where
  \<comment> \<open>\<open>s.split(sep, 1)\<close> when \<open>sep in s\<close>: the text before and after the first
      occurrence of \<open>sep\<close>; \<open>None\<close> when \<open>sep\<close> does not occur in \<open>s\<close>.\<close>
  "split_once sep [] = (if sep = [] then Some ([], []) else None)"
| "split_once sep (c # cs) =
     (if prefix sep (c # cs) then Some ([], drop (length sep) (c # cs))
      else map_option (\<lambda>(a, b). (c # a, b)) (split_once sep cs))"

section \<open>Identifier and URL (\<open>id_to_url\<close>, \<open>url_to_id\<close>)\<close>

definition id_to_url :: "string \<Rightarrow> string" where
  \<comment> \<open>\<open>f"https://rateyourmusic.com/release/album/{id_value}/"\<close>\<close>
  "id_to_url id_value = ''https://rateyourmusic.com/release/album/'' @ id_value @ ''/''"

text \<open>
  \<open>re.search(r'rateyourmusic\.com/release/album/(.+?)/?$', url)\<close>, written out for this
  pattern. \<open>$\<close> (no MULTILINE flag) matches at the end of the string and just before a
  newline that ends the string; \<open>.\<close> matches every character but the newline; \<open>(.+?)\<close>
  takes one character and then as few more as let the rest of the pattern match;
  \<open>re.search\<close> tries the start positions from left to right.
\<close>

definition dollar_ok :: "string \<Rightarrow> bool" where
  "dollar_ok t = (t = [] \<or> t = [CHR 0x0A])"

definition tail_ok :: "string \<Rightarrow> bool" where
  \<comment> \<open>\<open>/?$\<close>: with the optional slash taken, or without it\<close>
  "tail_ok t = (case t of
      c # t' \<Rightarrow> (c = CHR ''/'' \<and> dollar_ok t') \<or> dollar_ok t
    | [] \<Rightarrow> dollar_ok t)"

fun lazy_group :: "string \<Rightarrow> string \<Rightarrow> string option" where
  \<comment> \<open>\<open>(.+?)/?$\<close> with \<open>acc\<close> the characters the group has taken so far\<close>
  "lazy_group acc [] = None"
| "lazy_group acc (c # cs) =
     (if c = CHR 0x0A then None
      else if tail_ok cs then Some (acc @ [c])
      else lazy_group (acc @ [c]) cs)"

definition match_here :: "string \<Rightarrow> string option" where
  \<comment> \<open>the pattern anchored at the start of \<open>s\<close>; the result is group 1\<close>
  "match_here s =
     (if prefix ''rateyourmusic.com/release/album/'' s
      then lazy_group [] (drop (length ''rateyourmusic.com/release/album/'') s)
      else None)"

fun re_search :: "string \<Rightarrow> string option" where
  "re_search [] = match_here []"
| "re_search (c # cs) =
     (case match_here (c # cs) of Some g \<Rightarrow> Some g | None \<Rightarrow> re_search cs)"

definition url_to_id :: "string \<Rightarrow> string option" where
  \<comment> \<open>\<open>match.group(1).rstrip('/')\<close> if the pattern matches, \<open>None\<close> otherwise\<close>
  "url_to_id url = map_option (rstrip_chr (CHR ''/'')) (re_search url)"

text \<open>
  The canonical identifier shape of \<open>URL_PATTERNS\<close>: two or three segments
  \<open>[\w\-]+\<close> joined by slashes.
\<close>

definition word_char :: "char \<Rightarrow> bool" where
  \<comment> \<open>\<open>\w\<close> on ASCII: letters, digits and the underscore\<close>
  "word_char c = (let n = (of_char c :: nat) in
     (48 \<le> n \<and> n \<le> 57) \<or> (65 \<le> n \<and> n \<le> 90) \<or> (97 \<le> n \<and> n \<le> 122) \<or> n = 95)"

definition seg_char :: "char \<Rightarrow> bool" where
  "seg_char c = (word_char c \<or> c = CHR ''-'')"

fun split_slash :: "string \<Rightarrow> string list" where
  \<comment> \<open>\<open>s.split('/')\<close>\<close>
  "split_slash [] = [[]]"
| "split_slash (c # cs) =
     (if c = CHR ''/'' then [] # split_slash cs
      else (case split_slash cs of seg # segs \<Rightarrow> (c # seg) # segs | [] \<Rightarrow> [[c]]))"

definition canonical_id :: "string \<Rightarrow> bool" where
  "canonical_id i = (let segs = split_slash i in
     (length segs = 2 \<or> length segs = 3) \<and>
     list_all (\<lambda>seg. seg \<noteq> [] \<and> list_all seg_char seg) segs)"

section \<open>Numbers in text\<close>

definition digit :: "nat \<Rightarrow> char" where
  "digit d = char_of (48 + d)"

fun str_nat :: "nat \<Rightarrow> string" where
  \<comment> \<open>\<open>str(n)\<close> for \<open>n \<ge> 0\<close>, as an f-string renders it\<close>
  "str_nat n = (if n < 10 then [digit n] else str_nat (n div 10) @ [digit (n mod 10)])"

declare str_nat.simps [simp del]

definition zfill :: "nat \<Rightarrow> string \<Rightarrow> string" where
  "zfill w s = replicate (w - length s) (CHR ''0'') @ s"

datatype datetime = Datetime (year: nat) (month: nat) (day: nat)

definition strftime :: "datetime \<Rightarrow> string" where
  \<comment> \<open>\<open>dt.strftime("%Y-%m-%d")\<close>, which CPython hands to the C library: \<open>%Y\<close> is the
      year in decimal with no padding (year 999 gives 999), \<open>%m\<close> and \<open>%d\<close> are padded
      with zeros to two digits\<close>
  "strftime dt =
     str_nat (year dt) @ ''-'' @ zfill 2 (str_nat (month dt)) @ ''-''
       @ zfill 2 (str_nat (day dt))"

section \<open>The extractor (\<open>_extract_from_html\<close>)\<close>

text \<open>
  An exception is a value. \<open>Raised\<close> is any exception (a subclass of \<open>Exception\<close>) that
  a collaborator raises; \<open>UnboundLocalError\<close> is Python's error on reading a local
  variable that no assignment has reached, with the variable's name.
\<close>

datatype exn = Raised string | UnboundLocalError string

text \<open>The XPath expressions the extractor evaluates, in the order of the source.\<close>

datatype query =
    Q_og_title        \<comment> \<open>\<open>//meta[@property='og:title']/@content\<close>\<close>
  | Q_page_title      \<comment> \<open>\<open>//title/text()\<close>\<close>
  | Q_og_image        \<comment> \<open>\<open>//meta[@property='og:image']/@content\<close>\<close>
  | Q_artist          \<comment> \<open>\<open>//a[@class='artist']//text() | //div[@class='album_info']//a[...]//text()\<close>\<close>
  | Q_date            \<comment> \<open>\<open>//th[contains(text(), 'Released')]/following-sibling::td//text() | //span[@class='release_date']//text()\<close>\<close>
  | Q_genre           \<comment> \<open>\<open>//a[@class='genre']//text() | //div[@class='release_pri_genres']//a//text()\<close>\<close>
  | Q_tracks          \<comment> \<open>\<open>//div[@class='tracklist']//...//text() | //div[@id='tracks']//span[@class='rendered_text']//text()\<close>\<close>
  | Q_og_description  \<comment> \<open>\<open>//meta[@property='og:description']/@content\<close>\<close>

text \<open>
  The parsed document is what \<open>content.xpath\<close> answers: for each query the matched
  strings in document order, or an exception. The two library functions the extractor
  calls, \<open>detect_language\<close> and \<open>dateparser.parse\<close>, are parameters: each returns its
  value or raises.
\<close>

type_synonym document = "query \<Rightarrow> exn + string list"

record collaborators =
  detect_language :: "string \<Rightarrow> exn + string"
  dateparser_parse :: "string \<Rightarrow> exn + datetime option"

datatype LocalizedText = LocalizedText string string
  \<comment> \<open>\<open>{"lang": l, "text": t}\<close>\<close>

text \<open>
  The local variables of \<open>_extract_from_html\<close>. \<open>title\<close> and \<open>lang\<close> are first assigned
  inside the \<open>try\<close> block: \<open>None\<close> is the unbound variable.
\<close>

record locals =
  title :: "string option"
  lang :: "string option"
  localized_title :: "LocalizedText list"
  localized_desc :: "LocalizedText list"
  artist :: "string list"
  genre :: "string list"
  release_date :: "string option"
  track_list :: "string list"
  image_url :: "string option"
  duration :: int

definition init_locals :: locals where
  "init_locals = \<lparr> title = None, lang = None, localized_title = [], localized_desc = [],
     artist = [], genre = [], release_date = None, track_list = [], image_url = None,
     duration = 0 \<rparr>"

definition stripped :: "string list \<Rightarrow> string list" where
  \<comment> \<open>\<open>[x.strip() for x in xs if x.strip()]\<close>\<close>
  "stripped xs = map strip (filter (\<lambda>x. strip x \<noteq> []) xs)"

text \<open>
  The body of the \<open>try\<close> block, cut into groups of statements. Each group first makes its
  calls (which may raise) and then assigns, so a group that raises leaves the locals as
  they were before it.
\<close>

definition step_title :: "document \<Rightarrow> locals \<Rightarrow> exn + locals" where
  "step_title content s =
     (case content Q_og_title of
        Inl e \<Rightarrow> Inl e
      | Inr title_elem \<Rightarrow>
          (case title_elem of
             title_text # _ \<Rightarrow>
               (case split_once '' - '' title_text of
                  Some (artist_name, album_title) \<Rightarrow>
                    Inr (s\<lparr>artist := artist s @ [strip artist_name],
                           title := Some (strip album_title)\<rparr>)
                | None \<Rightarrow> Inr (s\<lparr>title := Some (strip title_text)\<rparr>))
           | [] \<Rightarrow>
               (case content Q_page_title of
                  Inl e \<Rightarrow> Inl e
                | Inr title_elem2 \<Rightarrow>
                    (case title_elem2 of
                       t # _ \<Rightarrow> Inr (s\<lparr>title := Some (strip t)\<rparr>)
                     | [] \<Rightarrow> Inr (s\<lparr>title := Some ''Unknown Album''\<rparr>)))))"

definition step_lang :: "collaborators \<Rightarrow> locals \<Rightarrow> exn + locals" where
  "step_lang c s =
     (case title s of
        None \<Rightarrow> Inl (UnboundLocalError ''title'')
      | Some t \<Rightarrow>
          (case detect_language c t of
             Inl e \<Rightarrow> Inl e
           | Inr l \<Rightarrow> Inr (s\<lparr>lang := Some l,
                              localized_title := localized_title s @ [LocalizedText l t]\<rparr>)))"

definition step_image :: "document \<Rightarrow> locals \<Rightarrow> exn + locals" where
  "step_image content s =
     (case content Q_og_image of
        Inl e \<Rightarrow> Inl e
      | Inr image_elem \<Rightarrow>
          (case image_elem of u # _ \<Rightarrow> Inr (s\<lparr>image_url := Some u\<rparr>) | [] \<Rightarrow> Inr s))"

definition step_artist :: "document \<Rightarrow> locals \<Rightarrow> exn + locals" where
  "step_artist content s =
     (case content Q_artist of
        Inl e \<Rightarrow> Inl e
      | Inr artist_elems \<Rightarrow>
          (if artist_elems \<noteq> [] \<and> artist s = []
           then Inr (s\<lparr>artist := stripped artist_elems\<rparr>) else Inr s))"

definition step_date :: "collaborators \<Rightarrow> document \<Rightarrow> locals \<Rightarrow> exn + locals" where
  "step_date c content s =
     (case content Q_date of
        Inl e \<Rightarrow> Inl e
      | Inr date_elems \<Rightarrow>
          (if date_elems \<noteq> []
           then (case dateparser_parse c (join '' '' (stripped date_elems)) of
                   Inl e \<Rightarrow> Inl e
                 | Inr None \<Rightarrow> Inr s
                 | Inr (Some dt) \<Rightarrow> Inr (s\<lparr>release_date := Some (strftime dt)\<rparr>))
           else Inr s))"

definition step_genre :: "document \<Rightarrow> locals \<Rightarrow> exn + locals" where
  "step_genre content s =
     (case content Q_genre of
        Inl e \<Rightarrow> Inl e
      | Inr genre_elems \<Rightarrow>
          (if genre_elems \<noteq> [] then Inr (s\<lparr>genre := stripped genre_elems\<rparr>) else Inr s))"

definition step_tracks :: "document \<Rightarrow> locals \<Rightarrow> exn + locals" where
  "step_tracks content s =
     (case content Q_tracks of
        Inl e \<Rightarrow> Inl e
      | Inr track_elems \<Rightarrow>
          (if track_elems \<noteq> [] then Inr (s\<lparr>track_list := stripped track_elems\<rparr>) else Inr s))"

definition step_desc :: "document \<Rightarrow> locals \<Rightarrow> exn + locals" where
  "step_desc content s =
     (case content Q_og_description of
        Inl e \<Rightarrow> Inl e
      | Inr desc_elems \<Rightarrow>
          (case desc_elems of
             d # _ \<Rightarrow>
               (if strip d \<noteq> []
                then (case lang s of
                        None \<Rightarrow> Inl (UnboundLocalError ''lang'')
                      | Some l \<Rightarrow>
                          Inr (s\<lparr>localized_desc := localized_desc s @ [LocalizedText l (strip d)]\<rparr>))
                else Inr s)
           | [] \<Rightarrow> Inr s))"

definition steps :: "collaborators \<Rightarrow> document \<Rightarrow> (locals \<Rightarrow> exn + locals) list" where
  "steps c content =
     [step_title content, step_lang c, step_image content, step_artist content,
      step_date c content, step_genre content, step_tracks content, step_desc content]"

fun run_steps :: "(locals \<Rightarrow> exn + locals) list \<Rightarrow> locals \<Rightarrow> exn + locals" where
  \<comment> \<open>statements in sequence: the first exception ends the run\<close>
  "run_steps [] s = Inr s"
| "run_steps (f # fs) s = (case f s of Inl e \<Rightarrow> Inl e | Inr s' \<Rightarrow> run_steps fs s')"

fun run_try :: "(locals \<Rightarrow> exn + locals) list \<Rightarrow> locals \<Rightarrow> locals" where
  \<comment> \<open>\<open>try: ... except Exception as e: logger.warning(...)\<close>: the first exception ends
      the block, the locals keep what was assigned before it, and execution goes on
      after the block\<close>
  "run_try [] s = s"
| "run_try (f # fs) s = (case f s of Inl e \<Rightarrow> s | Inr s' \<Rightarrow> run_try fs s')"

fun uniq_loop :: "'a list \<Rightarrow> 'a list \<Rightarrow> 'a list" where
  "uniq_loop r [] = r"
| "uniq_loop r (i # ls) = uniq_loop (if i \<in> set r then r else r @ [i]) ls"

definition uniq :: "'a list \<Rightarrow> 'a list" where
  \<comment> \<open>Modelled from the spec: \<open>uniq\<close> of \<open>common.models.misc\<close> is not among the sources.
      The spec: dedup by exact (language, text) pair; first occurrence wins for ordering.\<close>
  "uniq ls = uniq_loop [] ls"

text \<open>
  The values of the metadata dict. \<open>list(set(xs))\<close> is a list that holds each element of
  \<open>xs\<close> once, in an order Python does not fix: it is modelled as the set.
\<close>

datatype pyval =
    PyNone
  | PyStr string
  | PyInt int
  | PyStrSet "string set"
  | PyLocalized "LocalizedText list"

datatype ResourceContent = ResourceContent (metadata: "(string \<times> pyval) list")

definition render_tracks :: "string list \<Rightarrow> string" where
  \<comment> \<open>\<open>"\n".join([f"{i+1}. {t}" for i, t in enumerate(track_list)])\<close>\<close>
  "render_tracks tracks =
     join [CHR 0x0A] (map (\<lambda>(i, t). str_nat (i + 1) @ ''. '' @ t) (enumerate 0 tracks))"

definition build :: "locals \<Rightarrow> exn + ResourceContent" where
  \<comment> \<open>\<open>ResourceContent(metadata={...})\<close>; the dict's first entry reads \<open>title\<close>\<close>
  "build s =
     (case title s of
        None \<Rightarrow> Inl (UnboundLocalError ''title'')
      | Some t \<Rightarrow> Inr (ResourceContent
          [(''title'', PyStr (if t \<noteq> [] then t else ''Unknown Album'')),
           (''localized_title'',
              PyLocalized (if localized_title s \<noteq> [] then uniq (localized_title s)
                           else [LocalizedText ''en'' ''Unknown Album''])),
           (''localized_description'', PyLocalized (uniq (localized_desc s))),
           (''artist'', PyStrSet (if artist s \<noteq> [] then set (artist s) else {})),
           (''genre'', PyStrSet (if genre s \<noteq> [] then set (genre s) else {})),
           (''release_date'', (case release_date s of None \<Rightarrow> PyNone | Some d \<Rightarrow> PyStr d)),
           (''track_list'',
              (if track_list s \<noteq> [] then PyStr (render_tracks (track_list s)) else PyNone)),
           (''duration'', (if duration s > 0 then PyInt (duration s) else PyNone)),
           (''cover_image_url'', (case image_url s of None \<Rightarrow> PyNone | Some u \<Rightarrow> PyStr u))]))"

definition extract_from_html :: "collaborators \<Rightarrow> document \<Rightarrow> exn + ResourceContent" where
  "extract_from_html c content = build (run_try (steps c content) init_locals)"

definition field_of :: "exn + ResourceContent \<Rightarrow> string \<Rightarrow> pyval option" where
  \<comment> \<open>\<open>pd.metadata.get(key)\<close> on the returned value; \<open>None\<close> when the call raised or the
      key is not in the dict\<close>
  "field_of res k = (case res of Inl e \<Rightarrow> None | Inr pd \<Rightarrow> map_of (metadata pd) k)"

text \<open>
  The steps are numbered from 0: title, language, cover image, artist, date, genre,
  tracks, description. \<open>reaches c content k\<close>: the first \<open>k\<close> steps run without an
  exception. \<open>fails_at c content k\<close>: they do, and step \<open>k\<close> raises.
\<close>

definition reaches :: "collaborators \<Rightarrow> document \<Rightarrow> nat \<Rightarrow> bool" where
  "reaches c content k =
     (case run_steps (take k (steps c content)) init_locals of Inr s \<Rightarrow> True | Inl e \<Rightarrow> False)"


section \<open>The record of the data model\<close>



section \<open>Example inputs\<close>

definition ex_collab :: collaborators where
  "ex_collab = \<lparr> detect_language = (\<lambda>t. Inr ''en''),
     dateparser_parse = (\<lambda>t. if t = ''Released August 17, 1959''
                              then Inr (Some (Datetime 1959 8 17)) else Inr None) \<rparr>"

definition ex_doc :: document where
  "ex_doc q = (case q of
      Q_og_title \<Rightarrow> Inr [''Miles Davis - Kind of Blue'']
    | Q_date \<Rightarrow> Inr [''Released '', '' August 17, 1959'']
    | Q_genre \<Rightarrow> Inr [''Jazz'', ''Modal Jazz'', ''Jazz'']
    | Q_tracks \<Rightarrow> Inr [''Intro'', ''Song A'', ''Song B'']
    | Q_og_description \<Rightarrow> Inr ['' A 1959 album. '']
    | _ \<Rightarrow> Inr [])"

definition ex_record :: ResourceContent where
  "ex_record = ResourceContent
     [(''title'', PyStr ''Kind of Blue''),
      (''localized_title'', PyLocalized [LocalizedText ''en'' ''Kind of Blue'']),
      (''localized_description'', PyLocalized [LocalizedText ''en'' ''A 1959 album.'']),
      (''artist'', PyStrSet {''Miles Davis''}),
      (''genre'', PyStrSet {''Jazz'', ''Modal Jazz''}),
      (''release_date'', PyStr ''1959-08-17''),
      (''track_list'',
         PyStr (''1. Intro'' @ [CHR 0x0A] @ ''2. Song A'' @ [CHR 0x0A] @ ''3. Song B'')),
      (''duration'', PyNone),
      (''cover_image_url'', PyNone)]"

definition raising_doc :: document where
  \<comment> \<open>a document whose first query raises\<close>
  "raising_doc = ex_doc (Q_og_title := Inl (Raised ''XPathEvalError''))"

section \<open>The field rules in the words of the specification\<close>

text \<open>
  Track list: trim each matched string, discard blanks, then render as one
  newline-joined string with 1-based ordinal prefixes, in document order; absent when
  nothing is left.
\<close>

fun numbered :: "nat \<Rightarrow> string list \<Rightarrow> string list" where
  "numbered n [] = []"
| "numbered n (t # ts) = (str_nat n @ ''. '' @ t) # numbered (Suc n) ts"

definition spec_track_list :: "string list \<Rightarrow> pyval" where
  "spec_track_list matched = (let kept = filter (\<lambda>t. t \<noteq> []) (map strip matched) in
     if kept = [] then PyNone else PyStr (join [CHR 0x0A] (numbered 1 kept)))"

text \<open>
  Date: join the trimmed non-blank fragments with single spaces and parse; on success
  the date formatted by \<open>strftime\<close>, absent otherwise (the parser found no date, or it
  raised). \<open>date_shaped\<close> is the shape YYYY-MM-DD.
\<close>

definition spec_release_date :: "collaborators \<Rightarrow> string list \<Rightarrow> pyval" where
  "spec_release_date c matched =
     (case dateparser_parse c (join '' '' (filter (\<lambda>t. t \<noteq> []) (map strip matched))) of
        Inr (Some dt) \<Rightarrow> PyStr (strftime dt)
      | _ \<Rightarrow> PyNone)"

definition is_digit :: "char \<Rightarrow> bool" where
  "is_digit ch = (48 \<le> (of_char ch :: nat) \<and> (of_char ch :: nat) \<le> 57)"

definition date_shaped :: "string \<Rightarrow> bool" where
  "date_shaped s = (length s = 10 \<and> s ! 4 = CHR ''-'' \<and> s ! 7 = CHR ''-'' \<and>
     list_all is_digit (take 4 s @ take 2 (drop 5 s) @ drop 8 s))"

text \<open>Further example inputs.\<close>

definition no_title_doc :: document where
  "no_title_doc q = Inr []"

definition fr_collab :: collaborators where
  "fr_collab = \<lparr> detect_language = (\<lambda>t. Inr ''fr''), dateparser_parse = (\<lambda>t. Inr None) \<rparr>"

definition blank_title_doc :: document where
  "blank_title_doc q = (case q of
      Q_og_title \<Rightarrow> Inr [''   '']
    | Q_page_title \<Rightarrow> Inr [''Kind of Blue'']
    | _ \<Rightarrow> Inr [])"



definition raising_parse_collab :: collaborators where
  "raising_parse_collab = \<lparr> detect_language = (\<lambda>t. Inr ''en''),
     dateparser_parse = (\<lambda>t. Inl (Raised ''ValueError'')) \<rparr>"

definition early_year_collab :: collaborators where
  "early_year_collab = \<lparr> detect_language = (\<lambda>t. Inr ''en''),
     dateparser_parse = (\<lambda>t. Inr (Some (Datetime 999 1 2))) \<rparr>"

definition early_year_doc :: document where
  "early_year_doc q = (case q of
      Q_og_title \<Rightarrow> Inr [''Anonymous - Chant'']
    | Q_date \<Rightarrow> Inr [''2 January 999'']
    | _ \<Rightarrow> Inr [])"

definition raising_detect_collab :: collaborators where
  "raising_detect_collab = \<lparr> detect_language = (\<lambda>t. Inl (Raised ''LangDetectException'')),
     dateparser_parse = (\<lambda>t. if t = ''Released August 17, 1959''
                              then Inr (Some (Datetime 1959 8 17)) else Inr None) \<rparr>"

definition truncated_record :: ResourceContent where
  "truncated_record = ResourceContent
     [(''title'', PyStr ''Kind of Blue''),
      (''localized_title'', PyLocalized [LocalizedText ''en'' ''Kind of Blue'']),
      (''localized_description'', PyLocalized []),
      (''artist'', PyStrSet {''Miles Davis''}),
      (''genre'', PyStrSet {}),
      (''release_date'', PyNone),
      (''track_list'', PyNone),
      (''duration'', PyNone),
      (''cover_image_url'', PyNone)]"

section \<open>Round trip of the identifier\<close>

lemma lazy_group_takes_all:
  assumes "i \<noteq> []" and "CHR 0x0A \<notin> set i" and "last i \<noteq> CHR ''/''"
  shows "lazy_group acc (i @ ''/'') = Some (acc @ i)"
  using assms
proof (induction i arbitrary: acc)
  case Nil
  then show ?case by simp
next
  case (Cons c cs)
  show ?case
  proof (cases "cs = []")
    case True
    with Cons.prems show ?thesis by (simp add: tail_ok_def dollar_ok_def)
  next
    case False
    then obtain d ds where cs: "cs = d # ds" by (cases cs) auto
    have nt: "\<not> tail_ok (cs @ ''/'')"
    proof (cases ds)
      case Nil
      with cs Cons.prems show ?thesis by (simp add: tail_ok_def dollar_ok_def)
    next
      case (Cons e es)
      with cs show ?thesis by (simp add: tail_ok_def dollar_ok_def)
    qed
    from Cons.prems False have "lazy_group (acc @ [c]) (cs @ ''/'') = Some ((acc @ [c]) @ cs)"
      by (intro Cons.IH) auto
    with nt Cons.prems show ?thesis by auto
  qed
qed

lemma re_search_id_to_url:
  assumes "i \<noteq> []" and "CHR 0x0A \<notin> set i" and "last i \<noteq> CHR ''/''"
  shows "re_search (id_to_url i) = Some i"
proof -
  have "match_here (''rateyourmusic.com/release/album/'' @ i @ ''/'') = lazy_group [] (i @ ''/'')"
    by (simp add: match_here_def)
  also have "\<dots> = Some i"
    using lazy_group_takes_all [OF assms, of "[]"] by simp
  finally have m: "match_here (''rateyourmusic.com/release/album/'' @ i @ ''/'') = Some i" .
  have "re_search (id_to_url i) = re_search (''rateyourmusic.com/release/album/'' @ i @ ''/'')"
    by (simp add: id_to_url_def match_here_def)
  also have "\<dots> = Some i"
    using m by simp
  finally show ?thesis .
qed

lemma rstrip_chr_id: "s \<noteq> [] \<Longrightarrow> last s \<noteq> c \<Longrightarrow> rstrip_chr c s = s"
  by (cases s rule: rev_cases) (simp_all add: rstrip_chr_def)

lemma split_slash_not_Nil: "split_slash s \<noteq> []"
  by (induction s) (auto split: list.splits)

lemma split_slash_single_empty: "split_slash s = [[]] \<Longrightarrow> s = []"
  using split_slash_not_Nil by (cases s) (auto split: list.splits if_splits)

lemma split_slash_trailing:
  "s \<noteq> [] \<Longrightarrow> last s = CHR ''/'' \<Longrightarrow> last (split_slash s) = []"
proof (induction s)
  case Nil
  then show ?case by simp
next
  case (Cons c cs)
  show ?case
  proof (cases "cs = []")
    case True
    with Cons.prems show ?thesis by simp
  next
    case False
    with Cons have ih: "last (split_slash cs) = []" by simp
    obtain seg segs where sp: "split_slash cs = seg # segs"
      using split_slash_not_Nil [of cs] by (cases "split_slash cs") auto
    have "segs \<noteq> []"
    proof
      assume "segs = []"
      with sp ih have "split_slash cs = [[]]" by simp
      with False show False using split_slash_single_empty by blast
    qed
    with sp ih show ?thesis by simp
  qed
qed

lemma split_slash_chars:
  "c \<in> set s \<Longrightarrow> c \<noteq> CHR ''/'' \<Longrightarrow> \<exists>seg \<in> set (split_slash s). c \<in> set seg"
proof (induction s)
  case Nil
  then show ?case by simp
next
  case (Cons d ds)
  obtain seg segs where sp: "split_slash ds = seg # segs"
    using split_slash_not_Nil [of ds] by (cases "split_slash ds") auto
  show ?case
  proof (cases "c = d")
    case True
    with Cons.prems sp show ?thesis by simp
  next
    case False
    with Cons have "\<exists>seg \<in> set (split_slash ds). c \<in> set seg" by simp
    with sp show ?thesis by auto
  qed
qed

lemma canonical_id_shape:
  assumes "canonical_id i"
  shows "i \<noteq> []" and "CHR 0x0A \<notin> set i" and "last i \<noteq> CHR ''/''"
proof -
  let ?segs = "split_slash i"
  from assms have len: "length ?segs = 2 \<or> length ?segs = 3"
    and all: "\<forall>seg \<in> set ?segs. seg \<noteq> [] \<and> (\<forall>c \<in> set seg. seg_char c)"
    by (simp_all add: canonical_id_def Let_def list_all_iff)
  show ne: "i \<noteq> []"
  proof
    assume "i = []"
    with len show False by simp
  qed
  show "CHR 0x0A \<notin> set i"
  proof
    assume "CHR 0x0A \<in> set i"
    then obtain seg where "seg \<in> set ?segs" and "CHR 0x0A \<in> set seg"
      using split_slash_chars [of "CHR 0x0A" i] by auto
    with all have "seg_char (CHR 0x0A)" by blast
    then show False by (simp add: seg_char_def word_char_def)
  qed
  show "last i \<noteq> CHR ''/''"
  proof
    assume "last i = CHR ''/''"
    with ne have "last ?segs = []" by (rule split_slash_trailing)
    moreover have "last ?segs \<in> set ?segs"
      using split_slash_not_Nil by simp
    ultimately show False using all by auto
  qed
qed

text \<open>
  C2. For every identifier of the canonical shape (two or three segments of word
  characters and hyphens, joined by slashes), \<open>url_to_id\<close> applied to the URL that
  \<open>id_to_url\<close> builds gives the identifier back.
\<close>

theorem url_to_id_id_to_url:
  "canonical_id i \<Longrightarrow> url_to_id (id_to_url i) = Some i"
  using canonical_id_shape [of i]
  by (simp add: url_to_id_def re_search_id_to_url rstrip_chr_id)

theorem url_to_id_id_to_url_witness:
  "canonical_id ''miles-davis/kind_of_blue''
   \<and> id_to_url ''miles-davis/kind_of_blue''
       = ''https://rateyourmusic.com/release/album/miles-davis/kind_of_blue/''
   \<and> url_to_id ''https://rateyourmusic.com/release/album/miles-davis/kind_of_blue/''
       = Some ''miles-davis/kind_of_blue''"
proof -
  have c: "canonical_id ''miles-davis/kind_of_blue''"
    by (simp add: canonical_id_def seg_char_def word_char_def)
  have u: "id_to_url ''miles-davis/kind_of_blue''
       = ''https://rateyourmusic.com/release/album/miles-davis/kind_of_blue/''"
    by (simp add: id_to_url_def)
  from url_to_id_id_to_url [OF c] u c show ?thesis by simp
qed

section \<open>The try block\<close>

lemma run_try_append:
  "run_steps fs s = Inr s' \<Longrightarrow> run_try (fs @ gs) s = run_try gs s'"
  by (induction fs arbitrary: s) (auto split: sum.splits)

lemma run_steps_append:
  "run_steps fs s = Inr s' \<Longrightarrow> run_steps (fs @ gs) s = run_steps gs s'"
  by (induction fs arbitrary: s) (auto split: sum.splits)

lemma run_try_of_run_steps: "run_steps fs s = Inr s' \<Longrightarrow> run_try fs s = s'"
  using run_try_append [of fs s s' "[]"] by simp

lemma run_try_split:
  assumes "run_steps (take k fs) s = Inr s'"
  shows "run_try fs s = run_try (drop k fs) s'"
  using run_try_append [OF assms, of "drop k fs"] by simp

lemma run_try_inv:
  assumes "P s" and "\<And>f t t'. f \<in> set fs \<Longrightarrow> P t \<Longrightarrow> f t = Inr t' \<Longrightarrow> P t'"
  shows "P (run_try fs s)"
  using assms
proof (induction fs arbitrary: s)
  case Nil
  then show ?case by simp
next
  case (Cons f fs)
  show ?case
  proof (cases "f s")
    case (Inl e)
    with Cons.prems show ?thesis by simp
  next
    case (Inr s')
    have "P s'" using Cons.prems(2) [of f s s'] Cons.prems(1) Inr by simp
    then have "P (run_try fs s')" using Cons.prems(2) by (intro Cons.IH) auto
    with Inr show ?thesis by simp
  qed
qed

lemma run_steps_inv:
  assumes "run_steps fs s = Inr s'" and "P s"
    and "\<And>f t t'. f \<in> set fs \<Longrightarrow> P t \<Longrightarrow> f t = Inr t' \<Longrightarrow> P t'"
  shows "P s'"
proof -
  have "P (run_try fs s)" using assms(2,3) by (rule run_try_inv)
  with run_try_of_run_steps [OF assms(1)] show ?thesis by simp
qed

lemma step_title_frame:
  "step_title content s = Inr s' \<Longrightarrow>
     title s' \<noteq> None \<and> lang s' = lang s \<and> localized_title s' = localized_title s \<and>
     localized_desc s' = localized_desc s \<and> genre s' = genre s \<and>
     release_date s' = release_date s \<and> track_list s' = track_list s \<and>
     image_url s' = image_url s \<and> duration s' = duration s"
  by (auto simp: step_title_def split: sum.splits list.splits option.splits)

lemma step_lang_frame:
  "step_lang c s = Inr s' \<Longrightarrow>
     title s' = title s \<and> localized_desc s' = localized_desc s \<and> artist s' = artist s \<and>
     genre s' = genre s \<and> release_date s' = release_date s \<and> track_list s' = track_list s \<and>
     image_url s' = image_url s \<and> duration s' = duration s"
  by (auto simp: step_lang_def split: sum.splits option.splits)

lemma step_image_frame:
  "step_image content s = Inr s' \<Longrightarrow>
     title s' = title s \<and> lang s' = lang s \<and> localized_title s' = localized_title s \<and>
     localized_desc s' = localized_desc s \<and> artist s' = artist s \<and> genre s' = genre s \<and>
     release_date s' = release_date s \<and> track_list s' = track_list s \<and>
     duration s' = duration s"
  by (auto simp: step_image_def split: sum.splits list.splits)

lemma step_artist_frame:
  "step_artist content s = Inr s' \<Longrightarrow>
     title s' = title s \<and> lang s' = lang s \<and> localized_title s' = localized_title s \<and>
     localized_desc s' = localized_desc s \<and> genre s' = genre s \<and>
     release_date s' = release_date s \<and> track_list s' = track_list s \<and>
     image_url s' = image_url s \<and> duration s' = duration s"
  by (auto simp: step_artist_def split: sum.splits if_splits)

lemma step_date_frame:
  "step_date c content s = Inr s' \<Longrightarrow>
     title s' = title s \<and> lang s' = lang s \<and> localized_title s' = localized_title s \<and>
     localized_desc s' = localized_desc s \<and> artist s' = artist s \<and> genre s' = genre s \<and>
     track_list s' = track_list s \<and> image_url s' = image_url s \<and> duration s' = duration s"
  by (auto simp: step_date_def split: sum.splits if_splits option.splits)

lemma step_genre_frame:
  "step_genre content s = Inr s' \<Longrightarrow>
     title s' = title s \<and> lang s' = lang s \<and> localized_title s' = localized_title s \<and>
     localized_desc s' = localized_desc s \<and> artist s' = artist s \<and>
     release_date s' = release_date s \<and> track_list s' = track_list s \<and>
     image_url s' = image_url s \<and> duration s' = duration s"
  by (auto simp: step_genre_def split: sum.splits if_splits)

lemma step_tracks_frame:
  "step_tracks content s = Inr s' \<Longrightarrow>
     title s' = title s \<and> lang s' = lang s \<and> localized_title s' = localized_title s \<and>
     localized_desc s' = localized_desc s \<and> artist s' = artist s \<and> genre s' = genre s \<and>
     release_date s' = release_date s \<and> image_url s' = image_url s \<and>
     duration s' = duration s"
  by (auto simp: step_tracks_def split: sum.splits if_splits)

lemma step_desc_frame:
  "step_desc content s = Inr s' \<Longrightarrow>
     title s' = title s \<and> lang s' = lang s \<and> localized_title s' = localized_title s \<and>
     artist s' = artist s \<and> genre s' = genre s \<and> release_date s' = release_date s \<and>
     track_list s' = track_list s \<and> image_url s' = image_url s \<and> duration s' = duration s"
  by (auto simp: step_desc_def split: sum.splits list.splits if_splits option.splits)

lemma duration_stays_zero: "duration (run_try (steps c content) init_locals) = 0"
proof (rule run_try_inv)
  show "duration init_locals = 0" by (simp add: init_locals_def)
next
  fix f t t'
  assume "f \<in> set (steps c content)" and "duration t = 0" and "f t = Inr t'"
  then show "duration t' = 0"
    using step_title_frame step_lang_frame step_image_frame step_artist_frame
      step_date_frame step_genre_frame step_tracks_frame step_desc_frame
    by (auto simp: steps_def)
qed



lemma uniq_single: "uniq [x] = [x]"
  by (simp add: uniq_def)

lemma steps_frame_title:
  assumes "f \<in> set (tl (steps c content))" and "f t = Inr t'"
  shows "title t' = title t"
  using assms step_lang_frame step_image_frame step_artist_frame
      step_date_frame step_genre_frame step_tracks_frame step_desc_frame
  by (auto simp: steps_def)

lemma title_after_try:
  "title (run_try (steps c content) init_locals) =
     (case step_title content init_locals of Inl e \<Rightarrow> None | Inr s \<Rightarrow> title s)"
proof (cases "step_title content init_locals")
  case (Inl e)
  then show ?thesis by (simp add: steps_def init_locals_def)
next
  case (Inr s)
  have "title (run_try (tl (steps c content)) s) = title s"
    by (rule run_try_inv [where P = "\<lambda>t. title t = title s"])
       (simp_all add: steps_frame_title)
  with Inr show ?thesis by (simp add: steps_def)
qed

lemma ex_extract: "extract_from_html ex_collab ex_doc = Inr ex_record"
  by code_simp

section \<open>When a record is returned\<close>

text \<open>
  The call returns a record exactly when the title statements run without an exception:
  every other exception is caught and leaves \<open>title\<close> bound.
\<close>

lemma extract_returns_iff:
  "(\<exists>pd. extract_from_html c content = Inr pd) \<longleftrightarrow>
     (\<exists>s. step_title content init_locals = Inr s)"
  using step_title_frame [of content init_locals]
  by (cases "step_title content init_locals")
     (auto simp: extract_from_html_def build_def title_after_try split: option.splits)

text \<open>
  C1. The claim: no exception raised while a field is extracted is propagated out of
  the call. On the code, an exception raised by the first title query is caught, and
  then the read of \<open>title\<close>, which no assignment has reached, raises
  \<open>UnboundLocalError\<close> out of the call.
\<close>

theorem unbound_title_raises:
  "raising_doc Q_og_title = Inl (Raised ''XPathEvalError'') \<and>
   extract_from_html ex_collab raising_doc = Inl (UnboundLocalError ''title'')"
  by (simp add: raising_doc_def extract_from_html_def steps_def step_title_def build_def
        init_locals_def)

section \<open>The fixed keys and the duration\<close>



text \<open>
  C10. The duration accumulator stays at 0 through the whole \<open>try\<close> block, so every
  returned record holds the absent sentinel under \<open>duration\<close>.
\<close>

theorem duration_absent:
  "extract_from_html c content = Inr pd \<Longrightarrow>
     duration (run_try (steps c content) init_locals) = 0 \<and>
     map_of (metadata pd) ''duration'' = Some PyNone"
  using duration_stays_zero [of c content]
  by (auto simp: extract_from_html_def build_def split: option.splits)

theorem duration_absent_witness:
  "extract_from_html ex_collab ex_doc = Inr ex_record \<and>
   duration (run_try (steps ex_collab ex_doc) init_locals) = 0 \<and>
   map_of (metadata ex_record) ''duration'' = Some PyNone"
  using duration_absent [OF ex_extract] ex_extract by simp

section \<open>Track list and release date\<close>

lemma stripped_alt: "stripped xs = filter (\<lambda>t. t \<noteq> []) (map strip xs)"
  by (induction xs) (simp_all add: stripped_def)

lemma numbered_enumerate:
  "map (\<lambda>(i, t). str_nat (i + 1) @ ''. '' @ t) (enumerate n xs) = numbered (Suc n) xs"
  by (induction xs arbitrary: n) simp_all

lemma render_tracks_numbered: "render_tracks xs = join [CHR 0x0A] (numbered 1 xs)"
  unfolding render_tracks_def numbered_enumerate by simp



lemma field_track_list:
  "title s = Some t \<Longrightarrow> field_of (build s) ''track_list'' =
     Some (if track_list s \<noteq> [] then PyStr (render_tracks (track_list s)) else PyNone)"
  by (simp add: build_def field_of_def)

lemma field_release_date:
  "title s = Some t \<Longrightarrow> field_of (build s) ''release_date'' =
     Some (case release_date s of None \<Rightarrow> PyNone | Some d \<Rightarrow> PyStr d)"
  by (simp add: build_def field_of_def)

lemma track_list_empty_before:
  assumes "k \<le> 6" and "run_steps (take k (steps c content)) init_locals = Inr s"
  shows "track_list s = []"
proof (rule run_steps_inv [OF assms(2), where P = "\<lambda>t. track_list t = []"])
  show "track_list init_locals = []" by (simp add: init_locals_def)
next
  fix f t t'
  assume a: "f \<in> set (take k (steps c content))" "track_list t = []" "f t = Inr t'"
  from a(1) assms(1) have "f \<in> set (take 6 (steps c content))"
    using set_take_subset_set_take [of k 6 "steps c content"] by auto
  then have "f \<in> {step_title content, step_lang c, step_image content, step_artist content,
      step_date c content, step_genre content}"
    by (simp add: steps_def)
  with a(2,3) show "track_list t' = []"
    using step_title_frame step_lang_frame step_image_frame step_artist_frame
      step_date_frame step_genre_frame
    by auto
qed

lemma is_digit_digit: "d < 10 \<Longrightarrow> is_digit (digit d)"
  by (simp add: is_digit_def digit_def)

lemma str_nat_digits: "list_all is_digit (str_nat n)"
proof (induction n rule: str_nat.induct)
  case (1 n)
  show ?case
  proof (cases "n < 10")
    case True
    then show ?thesis by (subst str_nat.simps) (simp add: is_digit_digit)
  next
    case False
    with 1 show ?thesis by (subst str_nat.simps) (simp add: is_digit_digit)
  qed
qed

lemma length_str_nat: "0 < k \<Longrightarrow> n < 10 ^ k \<Longrightarrow> length (str_nat n) \<le> k"
proof (induction k arbitrary: n)
  case 0
  then show ?case by simp
next
  case (Suc k)
  show ?case
  proof (cases "n < 10")
    case True
    then show ?thesis by (subst str_nat.simps) simp
  next
    case False
    with Suc.prems have k: "0 < k" by (cases k) auto
    from Suc.prems have "n div 10 < 10 ^ k" by (simp add: less_mult_imp_div_less mult.commute)
    with k have "length (str_nat (n div 10)) \<le> k" by (rule Suc.IH)
    with False show ?thesis by (subst str_nat.simps) simp
  qed
qed

lemma length_zfill: "length s \<le> w \<Longrightarrow> length (zfill w s) = w"
  by (simp add: zfill_def)

lemma zfill_digits: "list_all is_digit s \<Longrightarrow> list_all is_digit (zfill w s)"
  by (auto simp: zfill_def is_digit_def list_all_iff)

lemma length_str_nat_exact:
  "10 ^ k \<le> n \<Longrightarrow> n < 10 ^ Suc k \<Longrightarrow> length (str_nat n) = Suc k"
proof (induction k arbitrary: n)
  case 0
  then show ?case by (subst str_nat.simps) simp
next
  case (Suc k)
  from Suc.prems(1) have a: "10 * 10 ^ k \<le> n" by simp
  have b: "(1::nat) \<le> 10 ^ k" by simp
  from a b have ge: "\<not> n < 10" by linarith
  from Suc.prems have lo: "10 ^ k \<le> n div 10"
    by (simp add: less_eq_div_iff_mult_less_eq mult.commute)
  from Suc.prems have hi: "n div 10 < 10 ^ Suc k"
    by (simp add: less_mult_imp_div_less mult.commute)
  from lo hi have "length (str_nat (n div 10)) = Suc k" by (rule Suc.IH)
  with ge show ?case by (subst str_nat.simps) simp
qed

lemma strftime_shape:
  assumes "1000 \<le> year dt" and "year dt < 10000" and "month dt < 100" and "day dt < 100"
  shows "date_shaped (strftime dt)"
proof -
  define A where "A = str_nat (year dt)"
  define B where "B = zfill 2 (str_nat (month dt))"
  define C where "C = zfill 2 (str_nat (day dt))"
  have lA: "length A = 4" unfolding A_def
    using length_str_nat_exact [of 3 "year dt"] assms(1,2) by simp
  have lB: "length B = 2" unfolding B_def
    using assms(3) by (intro length_zfill length_str_nat) simp_all
  have lC: "length C = 2" unfolding C_def
    using assms(4) by (intro length_zfill length_str_nat) simp_all
  have d: "list_all is_digit A" "list_all is_digit B" "list_all is_digit C"
    unfolding A_def B_def C_def by (simp_all add: zfill_digits str_nat_digits)
  have s: "strftime dt = A @ ''-'' @ B @ ''-'' @ C"
    by (simp add: strftime_def A_def B_def C_def)
  show ?thesis
    unfolding s date_shaped_def using lA lB lC d
    by (simp add: nth_append)
qed

lemma release_date_none_before:
  assumes "k \<le> 4" and "run_steps (take k (steps c content)) init_locals = Inr s"
  shows "release_date s = None"
proof (rule run_steps_inv [OF assms(2), where P = "\<lambda>t. release_date t = None"])
  show "release_date init_locals = None" by (simp add: init_locals_def)
next
  fix f t t'
  assume a: "f \<in> set (take k (steps c content))" "release_date t = None" "f t = Inr t'"
  from a(1) assms(1) have "f \<in> set (take 4 (steps c content))"
    using set_take_subset_set_take [of k 4 "steps c content"] by auto
  then have "f \<in> {step_title content, step_lang c, step_image content, step_artist content}"
    by (simp add: steps_def)
  with a(2,3) show "release_date t' = None"
    using step_title_frame step_lang_frame step_image_frame step_artist_frame
    by auto
qed

lemma after_date_frame:
  "title (run_try [step_genre content, step_tracks content, step_desc content] s) = title s \<and>
   release_date (run_try [step_genre content, step_tracks content, step_desc content] s)
     = release_date s"
proof (rule run_try_inv [where P = "\<lambda>t. title t = title s \<and> release_date t = release_date s"])
  show "title s = title s \<and> release_date s = release_date s" by simp
next
  fix f t t'
  assume "f \<in> set [step_genre content, step_tracks content, step_desc content]"
    and "title t = title s \<and> release_date t = release_date s" and "f t = Inr t'"
  then show "title t' = title s \<and> release_date t' = release_date s"
    using step_genre_frame step_tracks_frame step_desc_frame by auto
qed

section \<open>The title and its fallbacks\<close>

lemma field_title:
  "title s = Some t \<Longrightarrow> field_of (build s) ''title'' =
     Some (PyStr (if t \<noteq> [] then t else ''Unknown Album''))"
  by (simp add: build_def field_of_def)

lemma field_localized_title:
  "title s = Some t \<Longrightarrow> field_of (build s) ''localized_title'' =
     Some (PyLocalized (if localized_title s \<noteq> [] then uniq (localized_title s)
                        else [LocalizedText ''en'' ''Unknown Album'']))"
  by (simp add: build_def field_of_def)

lemma after_lang_frame:
  assumes "fs = drop 2 (steps c content)"
  shows "title (run_try fs s) = title s \<and> lang (run_try fs s) = lang s \<and>
         localized_title (run_try fs s) = localized_title s"
proof (rule run_try_inv [where P = "\<lambda>t. title t = title s \<and> lang t = lang s \<and>
     localized_title t = localized_title s"])
  show "title s = title s \<and> lang s = lang s \<and> localized_title s = localized_title s" by simp
next
  fix f t t'
  assume "f \<in> set fs"
    and "title t = title s \<and> lang t = lang s \<and> localized_title t = localized_title s"
    and "f t = Inr t'"
  then show "title t' = title s \<and> lang t' = lang s \<and> localized_title t' = localized_title s"
    using step_image_frame step_artist_frame step_date_frame step_genre_frame
      step_tracks_frame step_desc_frame
    by (auto simp: assms steps_def)
qed

lemma try_after_title:
  assumes "step_title content init_locals = Inr s1"
  shows "run_try (steps c content) init_locals =
     (case step_lang c s1 of Inl e \<Rightarrow> s1
      | Inr s2 \<Rightarrow> run_try (drop 2 (steps c content)) s2)"
  using assms by (simp add: steps_def split: sum.splits)

text \<open>
  C3 as amended. When neither title query returns a match, the title is the literal
  Unknown Album and it goes through the language detector like every other title: the
  record's \<open>localized_title\<close> is the single entry with the text Unknown Album and the
  language the detector returns for that text; the language is the literal en when
  the detector raises.
\<close>

theorem default_title_language:
  assumes "content Q_og_title = Inr []" and "content Q_page_title = Inr []"
  shows "field_of (extract_from_html c content) ''localized_title'' =
     Some (PyLocalized [LocalizedText
        (case detect_language c ''Unknown Album'' of Inr l \<Rightarrow> l | Inl e \<Rightarrow> ''en'')
        ''Unknown Album''])"
proof -
  define s1 where "s1 = init_locals\<lparr>title := Some ''Unknown Album''\<rparr>"
  have st: "step_title content init_locals = Inr s1"
    using assms by (simp add: step_title_def s1_def)
  let ?f = "run_try (steps c content) init_locals"
  show ?thesis
  proof (cases "detect_language c ''Unknown Album''")
    case (Inl e)
    then have "step_lang c s1 = Inl e" by (simp add: step_lang_def s1_def)
    with st have "?f = s1" by (simp add: try_after_title)
    then have "title ?f = Some ''Unknown Album''" and "localized_title ?f = []"
      by (simp_all add: s1_def init_locals_def)
    with Inl show ?thesis
      by (simp add: extract_from_html_def field_localized_title)
  next
    case (Inr l)
    define s2 where "s2 = s1\<lparr>lang := Some l,
      localized_title := [LocalizedText l ''Unknown Album'']\<rparr>"
    from Inr have "step_lang c s1 = Inr s2"
      by (simp add: step_lang_def s1_def s2_def init_locals_def)
    with st have "?f = run_try (drop 2 (steps c content)) s2" by (simp add: try_after_title)
    with after_lang_frame [OF refl, of c content s2]
    have "title ?f = Some ''Unknown Album''"
      and "localized_title ?f = [LocalizedText l ''Unknown Album'']"
      by (simp_all add: s2_def s1_def)
    with Inr show ?thesis
      by (simp add: extract_from_html_def field_localized_title uniq_single)
  qed
qed

theorem default_title_language_witness:
  "no_title_doc Q_og_title = Inr [] \<and> no_title_doc Q_page_title = Inr [] \<and>
   field_of (extract_from_html ex_collab no_title_doc) ''localized_title'' =
     Some (PyLocalized [LocalizedText ''en'' ''Unknown Album''])"
proof -
  have a: "no_title_doc Q_og_title = Inr []" and b: "no_title_doc Q_page_title = Inr []"
    by (simp_all add: no_title_doc_def)
  from default_title_language [OF a b, of ex_collab] a b show ?thesis
    by (simp add: ex_collab_def)
qed

text \<open>
  C3 as stated fails: with no title match and a detector that answers fr, the entry is
  tagged fr, not en.
\<close>

theorem default_title_not_english:
  "no_title_doc Q_og_title = Inr [] \<and> no_title_doc Q_page_title = Inr [] \<and>
   field_of (extract_from_html fr_collab no_title_doc) ''localized_title'' =
     Some (PyLocalized [LocalizedText ''fr'' ''Unknown Album'']) \<and>
   field_of (extract_from_html fr_collab no_title_doc) ''localized_title'' \<noteq>
     Some (PyLocalized [LocalizedText ''en'' ''Unknown Album''])"
  by code_simp

lemma steps_ignore_page_title:
  assumes "content Q_og_title = Inr (t # ts)"
  shows "steps c (content (Q_page_title := r)) = steps c content"
proof -
  have "step_title (content (Q_page_title := r)) = step_title content"
    using assms by (intro ext) (simp add: step_title_def)
  moreover have "step_image (content (Q_page_title := r)) = step_image content"
    by (intro ext) (simp add: step_image_def)
  moreover have "step_artist (content (Q_page_title := r)) = step_artist content"
    by (intro ext) (simp add: step_artist_def)
  moreover have "step_date c (content (Q_page_title := r)) = step_date c content"
    by (intro ext) (simp add: step_date_def)
  moreover have "step_genre (content (Q_page_title := r)) = step_genre content"
    by (intro ext) (simp add: step_genre_def)
  moreover have "step_tracks (content (Q_page_title := r)) = step_tracks content"
    by (intro ext) (simp add: step_tracks_def)
  moreover have "step_desc (content (Q_page_title := r)) = step_desc content"
    by (intro ext) (simp add: step_desc_def)
  ultimately show ?thesis by (simp add: steps_def)
qed

text \<open>
  C6 as amended. A title candidate is passed over only when its query returns no match
  at all. As soon as the og:title query returns a match, the title is derived from the
  first match, trimmed, blank or not, and the page-title query is not consulted: its
  answer (even an exception) does not change the result.
\<close>

theorem og_title_match_wins:
  assumes "content Q_og_title = Inr (t # ts)"
  shows "extract_from_html c (content (Q_page_title := r)) = extract_from_html c content \<and>
         title (run_try (steps c content) init_locals) =
           Some (case split_once '' - '' t of Some (a, b) \<Rightarrow> strip b | None \<Rightarrow> strip t)"
proof
  show "extract_from_html c (content (Q_page_title := r)) = extract_from_html c content"
    using steps_ignore_page_title [of content t ts c r] assms
    by (simp add: extract_from_html_def)
  show "title (run_try (steps c content) init_locals) =
           Some (case split_once '' - '' t of Some (a, b) \<Rightarrow> strip b | None \<Rightarrow> strip t)"
    using assms by (simp add: title_after_try step_title_def split: option.splits)
qed

theorem og_title_match_wins_witness:
  "blank_title_doc Q_og_title = Inr [''   ''] \<and>
   extract_from_html ex_collab (blank_title_doc (Q_page_title := Inr []))
     = extract_from_html ex_collab blank_title_doc \<and>
   title (run_try (steps ex_collab blank_title_doc) init_locals) = Some []"
proof -
  have a: "blank_title_doc Q_og_title = Inr [''   '']" by (simp add: blank_title_doc_def)
  have s: "strip ''   '' = []" by code_simp
  have n: "split_once '' - '' ''   '' = None" by code_simp
  from og_title_match_wins [of blank_title_doc "''   ''" "[]" ex_collab "Inr []"] a s n
  show ?thesis by simp
qed

text \<open>
  C6 as stated fails: a blank og:title match does not fall back to the page title. The
  derived title is the empty string, so the record's title is Unknown Album and its
  \<open>localized_title\<close> entry has an empty text, while the page title is Kind of Blue.
\<close>

theorem blank_og_title_no_fallback:
  "blank_title_doc Q_og_title = Inr [''   ''] \<and> strip ''   '' = [] \<and>
   blank_title_doc Q_page_title = Inr [''Kind of Blue''] \<and>
   field_of (extract_from_html ex_collab blank_title_doc) ''title''
     = Some (PyStr ''Unknown Album'') \<and>
   field_of (extract_from_html ex_collab blank_title_doc) ''localized_title''
     = Some (PyLocalized [LocalizedText ''en'' []])"
  by code_simp

text \<open>The fallback that the code does have: no og:title match at all.\<close>

lemma page_title_fallback:
  assumes "content Q_og_title = Inr []" and "content Q_page_title = Inr (p # ps)"
  shows "title (run_try (steps c content) init_locals) = Some (strip p)"
  using assms by (simp add: title_after_try step_title_def)

section \<open>Language tags and the one failure boundary\<close>

















section \<open>Runs in which nothing raises\<close>

text \<open>
  When every query answers with a match list and the two library functions return
  values, no statement of the \<open>try\<close> block raises: every step is reached.
\<close>

lemma run_steps_take:
  "run_steps fs s = Inr s' \<Longrightarrow> \<exists>s''. run_steps (take k fs) s = Inr s''"
proof (induction fs arbitrary: s k)
  case Nil
  then show ?case by simp
next
  case (Cons f fs)
  then show ?case by (cases k) (auto split: sum.splits)
qed

lemma reaches_when_nothing_raises:
  assumes doc: "\<And>q. \<exists>ms. content q = Inr ms"
    and det: "\<And>t. \<exists>l. detect_language c t = Inr l"
    and par: "\<And>t. \<exists>r. dateparser_parse c t = Inr r"
  shows "reaches c content k"
proof -
  have "\<exists>s1. step_title content init_locals = Inr s1"
    using doc [of Q_og_title] doc [of Q_page_title]
    by (auto simp: step_title_def split: list.splits option.splits)
  then obtain s1 where s1: "step_title content init_locals = Inr s1" by blast
  then obtain t where t: "title s1 = Some t" using step_title_frame by fastforce
  obtain l where "detect_language c t = Inr l" using det by blast
  with t have "\<exists>s2. step_lang c s1 = Inr s2 \<and> lang s2 = Some l"
    by (simp add: step_lang_def)
  then obtain s2 where s2: "step_lang c s1 = Inr s2" and l2: "lang s2 = Some l" by blast
  have "\<exists>s. step_image content s2 = Inr s"
    using doc [of Q_og_image] by (auto simp: step_image_def split: list.splits)
  then obtain s3 where s3: "step_image content s2 = Inr s3" by blast
  have "\<exists>s. step_artist content s3 = Inr s"
    using doc [of Q_artist] by (auto simp: step_artist_def)
  then obtain s4 where s4: "step_artist content s3 = Inr s4" by blast
  have "\<exists>s. step_date c content s4 = Inr s"
  proof -
    obtain ds where ds: "content Q_date = Inr ds" using doc by blast
    obtain r where r: "dateparser_parse c (join '' '' (stripped ds)) = Inr r" using par by blast
    show ?thesis using ds r by (cases r) (simp_all add: step_date_def)
  qed
  then obtain s5 where s5: "step_date c content s4 = Inr s5" by blast
  have "\<exists>s. step_genre content s5 = Inr s"
    using doc [of Q_genre] by (auto simp: step_genre_def)
  then obtain s6 where s6: "step_genre content s5 = Inr s6" by blast
  have "\<exists>s. step_tracks content s6 = Inr s"
    using doc [of Q_tracks] by (auto simp: step_tracks_def)
  then obtain s7 where s7: "step_tracks content s6 = Inr s7" by blast
  have "lang s7 = Some l"
    using l2 step_image_frame [OF s3] step_artist_frame [OF s4] step_date_frame [OF s5]
      step_genre_frame [OF s6] step_tracks_frame [OF s7]
    by simp
  then have "\<exists>s. step_desc content s7 = Inr s"
    using doc [of Q_og_description] by (auto simp: step_desc_def split: list.splits)
  then obtain s8 where s8: "step_desc content s7 = Inr s8" by blast
  have "run_steps (steps c content) init_locals = Inr s8"
    using s1 s2 s3 s4 s5 s6 s7 s8 by (simp add: steps_def)
  then obtain s where "run_steps (take k (steps c content)) init_locals = Inr s"
    using run_steps_take by blast
  then show ?thesis by (simp add: reaches_def)
qed

section \<open>Track list and release date of every returned record\<close>

lemma run_try_prefix_fails:
  "run_steps (take k fs) s = Inl e \<Longrightarrow> run_try fs s = run_try (take k fs) s"
proof (induction fs arbitrary: k s)
  case Nil
  then show ?case by simp
next
  case (Cons f fs)
  then show ?case by (cases k) (auto split: sum.splits)
qed

lemma returned_fields:
  assumes "extract_from_html c content = Inr pd"
  shows "\<exists>t. title (run_try (steps c content) init_locals) = Some t \<and>
     (\<forall>key. map_of (metadata pd) key
        = field_of (build (run_try (steps c content) init_locals)) key)"
  using assms
  by (auto simp: extract_from_html_def build_def field_of_def split: option.splits)

lemma truncated_extract: "extract_from_html raising_parse_collab ex_doc = Inr truncated_record"
  by code_simp

lemma track_list_of_try:
  "track_list (run_try (steps c content) init_locals) =
     (if reaches c content 6
      then (case content Q_tracks of Inr ts \<Rightarrow> stripped ts | Inl e \<Rightarrow> [])
      else [])"
proof (cases "run_steps (take 6 (steps c content)) init_locals")
  case (Inl e)
  then have nr: "\<not> reaches c content 6" by (simp add: reaches_def)
  have "run_try (steps c content) init_locals = run_try (take 6 (steps c content)) init_locals"
    using Inl by (rule run_try_prefix_fails)
  moreover have "track_list (run_try (take 6 (steps c content)) init_locals) = []"
  proof (rule run_try_inv [where P = "\<lambda>t. track_list t = []"])
    show "track_list init_locals = []" by (simp add: init_locals_def)
  next
    fix f t t'
    assume "f \<in> set (take 6 (steps c content))" and "track_list t = []" and "f t = Inr t'"
    then show "track_list t' = []"
      using step_title_frame step_lang_frame step_image_frame step_artist_frame
        step_date_frame step_genre_frame
      by (auto simp: steps_def)
  qed
  ultimately show ?thesis using nr by simp
next
  case (Inr s)
  then have r: "reaches c content 6" by (simp add: reaches_def)
  have e: "track_list s = []" using Inr by (intro track_list_empty_before [of 6]) simp_all
  have sp: "run_try (steps c content) init_locals
      = run_try [step_tracks content, step_desc content] s"
    using run_try_split [OF Inr] by (simp add: steps_def)
  show ?thesis
  proof (cases "content Q_tracks")
    case (Inl x)
    then have "step_tracks content s = Inl x" by (simp add: step_tracks_def)
    with sp e r Inl show ?thesis by simp
  next
    case (Inr ts)
    define s2 where "s2 = s\<lparr>track_list := stripped ts\<rparr>"
    have st: "step_tracks content s = Inr s2"
      using Inr e by (cases "ts = []") (simp_all add: step_tracks_def s2_def stripped_def)
    have "track_list (run_try [step_desc content] s2) = stripped ts"
      using step_desc_frame [of content s2]
      by (cases "step_desc content s2") (simp_all add: s2_def)
    with sp st r Inr show ?thesis by simp
  qed
qed

text \<open>
  C8 as amended. In every returned record, when no exception is raised before the track
  statements and the track query answers with the matches \<open>ts\<close>, \<open>track_list\<close> is the
  specification's rendering of \<open>ts\<close>: each string trimmed, blanks discarded, the rest in
  document order, one per line, each prefixed with its 1-based ordinal, and the absent
  sentinel when nothing is left. When an exception is raised before the track
  statements, or by the track query, \<open>track_list\<close> is the absent sentinel.
\<close>

theorem track_list_rule:
  assumes "extract_from_html c content = Inr pd"
  shows "map_of (metadata pd) ''track_list'' =
     Some (if reaches c content 6
           then (case content Q_tracks of Inr ts \<Rightarrow> spec_track_list ts | Inl e \<Rightarrow> PyNone)
           else PyNone)"
proof -
  from returned_fields [OF assms]
  obtain t where t: "title (run_try (steps c content) init_locals) = Some t"
    and m: "\<And>key. map_of (metadata pd) key
               = field_of (build (run_try (steps c content) init_locals)) key"
    by blast
  show ?thesis
    unfolding m field_track_list [OF t] track_list_of_try
    by (simp add: spec_track_list_def stripped_alt render_tracks_numbered Let_def
          split: sum.splits)
qed

theorem track_list_rule_witness:
  "extract_from_html ex_collab ex_doc = Inr ex_record \<and> reaches ex_collab ex_doc 6 \<and>
   ex_doc Q_tracks = Inr [''Intro'', ''Song A'', ''Song B''] \<and>
   map_of (metadata ex_record) ''track_list''
     = Some (PyStr (''1. Intro'' @ [CHR 0x0A] @ ''2. Song A'' @ [CHR 0x0A] @ ''3. Song B'')) \<and>
   extract_from_html raising_parse_collab ex_doc = Inr truncated_record \<and>
   \<not> reaches raising_parse_collab ex_doc 6 \<and>
   map_of (metadata truncated_record) ''track_list'' = Some PyNone"
proof -
  have r: "reaches ex_collab ex_doc 6" by code_simp
  have q: "ex_doc Q_tracks = Inr [''Intro'', ''Song A'', ''Song B'']" by (simp add: ex_doc_def)
  have v: "spec_track_list [''Intro'', ''Song A'', ''Song B'']
     = PyStr (''1. Intro'' @ [CHR 0x0A] @ ''2. Song A'' @ [CHR 0x0A] @ ''3. Song B'')"
    by code_simp
  have n: "\<not> reaches raising_parse_collab ex_doc 6" by code_simp
  have a: "map_of (metadata ex_record) ''track_list''
     = Some (PyStr (''1. Intro'' @ [CHR 0x0A] @ ''2. Song A'' @ [CHR 0x0A] @ ''3. Song B''))"
    using track_list_rule [OF ex_extract] r q v by simp
  have b: "map_of (metadata truncated_record) ''track_list'' = Some PyNone"
    using track_list_rule [OF truncated_extract] n by simp
  from a b r q n ex_extract truncated_extract show ?thesis by blast
qed

text \<open>
  C8 as stated fails: the document holds the tracks Intro, Song A, Song B, the date
  parser raises before the track statements run, and \<open>track_list\<close> is absent.
\<close>

theorem track_list_lost_after_failure:
  "ex_doc Q_tracks = Inr [''Intro'', ''Song A'', ''Song B''] \<and>
   spec_track_list [''Intro'', ''Song A'', ''Song B'']
     = PyStr (''1. Intro'' @ [CHR 0x0A] @ ''2. Song A'' @ [CHR 0x0A] @ ''3. Song B'') \<and>
   field_of (extract_from_html raising_parse_collab ex_doc) ''track_list'' = Some PyNone"
  by code_simp

lemma release_date_of_try:
  "release_date (run_try (steps c content) init_locals) =
     (if reaches c content 4
      then (case content Q_date of
              Inr ds \<Rightarrow>
                (if ds = [] then None
                 else (case dateparser_parse c (join '' '' (stripped ds)) of
                         Inr (Some dt) \<Rightarrow> Some (strftime dt)
                       | _ \<Rightarrow> None))
            | Inl e \<Rightarrow> None)
      else None)"
proof (cases "run_steps (take 4 (steps c content)) init_locals")
  case (Inl e)
  then have nr: "\<not> reaches c content 4" by (simp add: reaches_def)
  have "run_try (steps c content) init_locals = run_try (take 4 (steps c content)) init_locals"
    using Inl by (rule run_try_prefix_fails)
  moreover have "release_date (run_try (take 4 (steps c content)) init_locals) = None"
  proof (rule run_try_inv [where P = "\<lambda>t. release_date t = None"])
    show "release_date init_locals = None" by (simp add: init_locals_def)
  next
    fix f t t'
    assume "f \<in> set (take 4 (steps c content))" and "release_date t = None" and "f t = Inr t'"
    then show "release_date t' = None"
      using step_title_frame step_lang_frame step_image_frame step_artist_frame
      by (auto simp: steps_def)
  qed
  ultimately show ?thesis using nr by simp
next
  case (Inr s)
  then have r: "reaches c content 4" by (simp add: reaches_def)
  have n: "release_date s = None"
    using Inr by (intro release_date_none_before [of 4]) simp_all
  let ?rest = "[step_genre content, step_tracks content, step_desc content]"
  have sp: "run_try (steps c content) init_locals = run_try (step_date c content # ?rest) s"
    using run_try_split [OF Inr] by (simp add: steps_def)
  let ?rhs = "(case content Q_date of
              Inr ds \<Rightarrow>
                (if ds = [] then None
                 else (case dateparser_parse c (join '' '' (stripped ds)) of
                         Inr (Some dt) \<Rightarrow> Some (strftime dt)
                       | _ \<Rightarrow> None))
            | Inl e \<Rightarrow> None)"
  have "release_date (run_try (step_date c content # ?rest) s) = ?rhs"
  proof (cases "step_date c content s")
    case (Inl e)
    with n show ?thesis
      by (auto simp: step_date_def split: if_splits sum.splits option.splits)
  next
    case (Inr s')
    with n have "release_date s' = ?rhs"
      by (auto simp: step_date_def split: if_splits sum.splits option.splits)
    with Inr after_date_frame [of content s'] show ?thesis by simp
  qed
  with sp r show ?thesis by simp
qed

text \<open>
  C7 as amended. In every returned record, when no exception is raised before the date
  statements and the date query answers with at least one match, \<open>release_date\<close> is
  the parse of the trimmed non-blank fragments joined with single spaces, formatted by
  \<open>strftime\<close> when the parser returns a date, and the absent sentinel when the parser
  returns none or raises. It is the absent sentinel too when the query has no match
  (the parser is not called), when the query raises, and when an exception is raised
  before the date statements. The formatted date has the shape YYYY-MM-DD for the years
  1000 to 9999.
\<close>

theorem release_date_rule:
  assumes "extract_from_html c content = Inr pd"
  shows "map_of (metadata pd) ''release_date'' =
     Some (if reaches c content 4
           then (case content Q_date of
                   Inr ds \<Rightarrow> (if ds = [] then PyNone else spec_release_date c ds)
                 | Inl e \<Rightarrow> PyNone)
           else PyNone) \<and>
     (\<forall>dt. 1000 \<le> year dt \<and> year dt < 10000 \<and> month dt < 100 \<and> day dt < 100
        \<longrightarrow> date_shaped (strftime dt))"
proof
  from returned_fields [OF assms]
  obtain t where t: "title (run_try (steps c content) init_locals) = Some t"
    and m: "\<And>key. map_of (metadata pd) key
               = field_of (build (run_try (steps c content) init_locals)) key"
    by blast
  show "map_of (metadata pd) ''release_date'' =
     Some (if reaches c content 4
           then (case content Q_date of
                   Inr ds \<Rightarrow> (if ds = [] then PyNone else spec_release_date c ds)
                 | Inl e \<Rightarrow> PyNone)
           else PyNone)"
    unfolding m field_release_date [OF t] release_date_of_try
    by (simp add: spec_release_date_def stripped_alt split: sum.splits option.splits)
  show "\<forall>dt. 1000 \<le> year dt \<and> year dt < 10000 \<and> month dt < 100 \<and> day dt < 100
        \<longrightarrow> date_shaped (strftime dt)"
    by (simp add: strftime_shape)
qed

theorem release_date_rule_witness:
  "extract_from_html ex_collab ex_doc = Inr ex_record \<and> reaches ex_collab ex_doc 4 \<and>
   ex_doc Q_date = Inr [''Released '', '' August 17, 1959''] \<and>
   map_of (metadata ex_record) ''release_date'' = Some (PyStr ''1959-08-17'') \<and>
   date_shaped ''1959-08-17'' \<and>
   extract_from_html raising_parse_collab ex_doc = Inr truncated_record \<and>
   map_of (metadata truncated_record) ''release_date'' = Some PyNone"
proof -
  have r: "reaches ex_collab ex_doc 4" by code_simp
  have q: "ex_doc Q_date = Inr [''Released '', '' August 17, 1959'']" by (simp add: ex_doc_def)
  have v: "spec_release_date ex_collab [''Released '', '' August 17, 1959''] = PyStr ''1959-08-17''"
    by code_simp
  have f: "strftime (Datetime 1959 8 17) = ''1959-08-17''" by code_simp
  have r': "reaches raising_parse_collab ex_doc 4" by code_simp
  have v': "spec_release_date raising_parse_collab [''Released '', '' August 17, 1959''] = PyNone"
    by code_simp
  note th = release_date_rule [OF ex_extract]
  have a: "map_of (metadata ex_record) ''release_date'' = Some (PyStr ''1959-08-17'')"
    using th r q v by simp
  from th have "1000 \<le> year (Datetime 1959 8 17) \<and> year (Datetime 1959 8 17) < 10000 \<and>
      month (Datetime 1959 8 17) < 100 \<and> day (Datetime 1959 8 17) < 100
        \<longrightarrow> date_shaped (strftime (Datetime 1959 8 17))"
    by blast
  then have b: "date_shaped ''1959-08-17''" using f by simp
  have c: "map_of (metadata truncated_record) ''release_date'' = Some PyNone"
    using release_date_rule [OF truncated_extract] r' q v' by simp
  from a b c r q ex_extract truncated_extract show ?thesis by blast
qed

text \<open>
  C7 as stated fails twice. The language detector raises on the title: the date
  fragments parse to 1959-08-17 and \<open>release_date\<close> is absent. The parser returns a
  date in the year 999: \<open>release_date\<close> is 999-01-02, which is not of the shape
  YYYY-MM-DD.
\<close>

theorem release_date_absent_or_unpadded:
  "ex_doc Q_date = Inr [''Released '', '' August 17, 1959''] \<and>
   spec_release_date raising_detect_collab [''Released '', '' August 17, 1959'']
     = PyStr ''1959-08-17'' \<and>
   field_of (extract_from_html raising_detect_collab ex_doc) ''release_date'' = Some PyNone \<and>
   early_year_doc Q_date = Inr [''2 January 999''] \<and>
   field_of (extract_from_html early_year_collab early_year_doc) ''release_date''
     = Some (PyStr ''999-01-02'') \<and>
   \<not> date_shaped ''999-01-02''"
  by code_simp

end
